theory Spec2Isabelle
  imports Main "HOL-Library.Word"
begin

section \<open>Time values\<close>

text \<open>
  The engine reads the clock through Go's \<^verbatim>\<open>time\<close> package. A \<^verbatim>\<open>time.Time\<close> is modelled
  as the number of nanoseconds since the zero instant, so the zero value of the type is
  \<open>0\<close> and \<^verbatim>\<open>IsZero\<close> tests for it. A \<^verbatim>\<open>time.Duration\<close> is an \<^verbatim>\<open>int64\<close> count of
  nanoseconds: products wrap around, and \<^verbatim>\<open>Time.Sub\<close> saturates at the ends of the range.
  Every call of \<^verbatim>\<open>time.Now()\<close> is an input of the operation that makes it.
\<close>

type_synonym Time = int

type_synonym Duration = "64 word"

definition IsZero :: "Time \<Rightarrow> bool" where
  "IsZero t = (t = 0)"

definition Second :: Duration where
  "Second = 1000000000"

definition maxDuration :: int where
  "maxDuration = 2 ^ 63 - 1"

definition minDuration :: int where
  "minDuration = - (2 ^ 63)"

definition Sub :: "Time \<Rightarrow> Time \<Rightarrow> Duration" where
  "Sub t u =
     (let d = t - u in
      if d < minDuration then word_of_int minDuration
      else if maxDuration < d then word_of_int maxDuration
      else word_of_int d)"

section \<open>Data model\<close>

record Monitor =
  URL :: string
  Interval :: Duration

record LogEntry =
  Timestamp :: Time
  URL :: string
  StatusCode :: int
  ResponseTime :: int
  Success :: bool
  Error :: string

record DowntimeEntry =
  URL :: string
  StartTime :: Time
  EndTime :: Time
  Duration :: string
  StatusCode :: int
  ErrorDetail :: string

text \<open>
  A channel is identified by its allocation number. The record holds the four data fields
  of the Go struct and, next to them, the part of the runtime the engine acts on:
  \<open>chan_closed\<close> has one flag per channel made so far (\<open>True\<close> once it is closed), and
  \<open>goroutines\<close> lists the pollers started by \<^verbatim>\<open>go um.monitorURL(url, interval, stopChan)\<close>.
  The mutex is modelled by taking every critical section as one atomic function; the
  HTTP client is modelled by passing the result of each request as an argument.
\<close>

type_synonym chan = nat

record UptimeMonitor =
  monitors :: "string \<rightharpoonup> Monitor"
  logs :: "LogEntry list"
  downtimes :: "DowntimeEntry list"
  stopChannels :: "string \<rightharpoonup> chan"
  chan_closed :: "bool list"
  goroutines :: "(string \<times> Duration \<times> chan) list"

datatype error = Errorf string

datatype panic = Panic string

definition NewUptimeMonitor :: UptimeMonitor where
  "NewUptimeMonitor =
     \<lparr>monitors = Map.empty, logs = [], downtimes = [], stopChannels = Map.empty,
      chan_closed = [], goroutines = []\<rparr>"

section \<open>Target registry\<close>

definition AddMonitor :: "string \<Rightarrow> Duration \<Rightarrow> UptimeMonitor \<Rightarrow> error option \<times> UptimeMonitor" where
  "AddMonitor url interval0 um =
     (let interval = (if interval0 = 0 then 30 * Second else interval0) in
      case monitors um url of
        Some m \<Rightarrow> (Some (Errorf (''URL '' @ url @ '' is already being monitored'')), um)
      | None \<Rightarrow>
          (let stopChan = length (chan_closed um) in
           (None,
            um\<lparr>monitors := (monitors um)(url \<mapsto> \<lparr>Monitor.URL = url, Interval = interval\<rparr>),
               stopChannels := (stopChannels um)(url \<mapsto> stopChan),
               chan_closed := chan_closed um @ [False],
               goroutines := goroutines um @ [(url, interval, stopChan)]\<rparr>)))"

text \<open>Closing a channel that is already closed (or was never made) panics.\<close>

definition close_chan :: "chan \<Rightarrow> bool list \<Rightarrow> panic + bool list" where
  "close_chan c cs =
     (if c < length cs \<and> \<not> cs ! c then Inr (cs[c := True])
      else Inl (Panic ''close of closed channel''))"

definition RemoveMonitor :: "string \<Rightarrow> UptimeMonitor \<Rightarrow> panic + (error option \<times> UptimeMonitor)" where
  "RemoveMonitor url um =
     (case stopChannels um url of
        Some stopChan \<Rightarrow>
          (case close_chan stopChan (chan_closed um) of
             Inl p \<Rightarrow> Inl p
           | Inr cs \<Rightarrow>
               Inr (None,
                    um\<lparr>chan_closed := cs,
                       stopChannels := (stopChannels um)(url := None),
                       monitors := (monitors um)(url := None)\<rparr>))
      | None \<Rightarrow> Inr (Some (Errorf (''URL '' @ url @ '' is not being monitored'')), um))"

section \<open>Outcome processor\<close>

text \<open>
  \<^verbatim>\<open>getLastDowntime\<close> walks the slice from its last index down to 0 and returns a pointer
  to the first element whose URL matches; the pointer is modelled by the index. The
  counter of \<open>getLastDowntime_loop\<close> is one more than the index the Go loop looks at.
\<close>

fun getLastDowntime_loop :: "DowntimeEntry list \<Rightarrow> string \<Rightarrow> nat \<Rightarrow> nat option" where
  "getLastDowntime_loop ds url 0 = None"
| "getLastDowntime_loop ds url (Suc i) =
     (if DowntimeEntry.URL (ds ! i) = url then Some i else getLastDowntime_loop ds url i)"

definition getLastDowntime :: "UptimeMonitor \<Rightarrow> string \<Rightarrow> nat option" where
  "getLastDowntime um url = getLastDowntime_loop (downtimes um) url (length (downtimes um))"

definition handleFailure :: "LogEntry \<Rightarrow> UptimeMonitor \<Rightarrow> UptimeMonitor" where
  "handleFailure entry um0 =
     (let um = um0\<lparr>logs := logs um0 @ [entry]\<rparr>;
          started = um\<lparr>downtimes := downtimes um @
                      [\<lparr>DowntimeEntry.URL = LogEntry.URL entry,
                        StartTime = Timestamp entry,
                        EndTime = 0,
                        Duration = '''',
                        DowntimeEntry.StatusCode = LogEntry.StatusCode entry,
                        ErrorDetail = Error entry\<rparr>]\<rparr>
      in case getLastDowntime um (LogEntry.URL entry) of
           None \<Rightarrow> started
         | Some i \<Rightarrow> if \<not> IsZero (EndTime (downtimes um ! i)) then started else um)"

text \<open>
  \<open>String\<close> stands for \<^verbatim>\<open>Duration.String\<close> of the standard library, which renders the
  duration as text; \<open>now\<close> is the reading of the clock inside the critical section.
\<close>

definition handleSuccess :: "(Duration \<Rightarrow> string) \<Rightarrow> Time \<Rightarrow> string \<Rightarrow> UptimeMonitor \<Rightarrow> UptimeMonitor" where
  "handleSuccess String now url um =
     (case getLastDowntime um url of
        None \<Rightarrow> um
      | Some i \<Rightarrow>
          (let lastDowntime = downtimes um ! i in
           if IsZero (EndTime lastDowntime) then
             um\<lparr>downtimes := (downtimes um)
                  [i := lastDowntime\<lparr>EndTime := now,
                                     Duration := String (Sub now (StartTime lastDowntime))\<rparr>]\<rparr>
           else um))"

section \<open>Probing\<close>

text \<open>
  The result of \<^verbatim>\<open>um.client.Get(url)\<close>: a transport error with its text, or a completed
  response with its status code.
\<close>

datatype probe = TransportError string | Response int

text \<open>
  \<open>responseTime\<close> is the measured latency in milliseconds, \<open>ts\<close> the clock reading stored
  in the entry and \<open>now\<close> the later reading taken by \<open>handleSuccess\<close>.
\<close>

definition checkURL ::
  "(Duration \<Rightarrow> string) \<Rightarrow> string \<Rightarrow> probe \<Rightarrow> int \<Rightarrow> Time \<Rightarrow> Time \<Rightarrow> UptimeMonitor \<Rightarrow> UptimeMonitor" where
  "checkURL String url result responseTime ts now um =
     (let entry = \<lparr>Timestamp = ts, LogEntry.URL = url, LogEntry.StatusCode = 0,
                   ResponseTime = responseTime, Success = False, Error = ''''\<rparr>
      in case result of
           TransportError err \<Rightarrow> handleFailure (entry\<lparr>Success := False, Error := err\<rparr>) um
         | Response code \<Rightarrow>
             (let entry' = entry\<lparr>LogEntry.StatusCode := code,
                                 Success := (200 \<le> code \<and> code < 300)\<rparr>;
                  um' = um\<lparr>logs := logs um @ [entry']\<rparr>
              in if \<not> Success entry' then handleFailure entry' um'
                 else handleSuccess String now url um'))"

text \<open>
  The poller. \<^verbatim>\<open>time.NewTicker\<close> panics unless the interval is positive. After that each
  round of the loop waits for the stop channel or the ticker; the rounds the poller wakes
  up for are given as a list, so the loop is a recursion over it (a poller whose list
  runs out is still waiting).
\<close>

definition NewTicker :: "Duration \<Rightarrow> panic + Duration" where
  "NewTicker d =
     (if sint d \<le> 0 then Inl (Panic ''non-positive interval for NewTicker'') else Inr d)"

datatype wakeup = Stop | Tick probe int Time Time

fun monitorURL_loop ::
  "(Duration \<Rightarrow> string) \<Rightarrow> string \<Rightarrow> wakeup list \<Rightarrow> UptimeMonitor \<Rightarrow> UptimeMonitor" where
  "monitorURL_loop String url [] um = um"
| "monitorURL_loop String url (Stop # ws) um = um"
| "monitorURL_loop String url (Tick result responseTime ts now # ws) um =
     monitorURL_loop String url ws (checkURL String url result responseTime ts now um)"

definition monitorURL ::
  "(Duration \<Rightarrow> string) \<Rightarrow> string \<Rightarrow> Duration \<Rightarrow> wakeup list \<Rightarrow> UptimeMonitor \<Rightarrow> panic + UptimeMonitor" where
  "monitorURL String url interval ws um =
     (case NewTicker interval of
        Inl p \<Rightarrow> Inl p
      | Inr ticker \<Rightarrow> Inr (monitorURL_loop String url ws um))"

section \<open>Query surface\<close>

text \<open>Both queries run over the slice in order and append every match to the result.\<close>

definition GetLogs :: "UptimeMonitor \<Rightarrow> string \<Rightarrow> LogEntry list" where
  "GetLogs um url =
     foldl (\<lambda>urlLogs log. if LogEntry.URL log = url then urlLogs @ [log] else urlLogs)
       [] (logs um)"

definition GetDowntimes :: "UptimeMonitor \<Rightarrow> string \<Rightarrow> DowntimeEntry list" where
  "GetDowntimes um url =
     foldl (\<lambda>urlDowntimes downtime.
              if DowntimeEntry.URL downtime = url then urlDowntimes @ [downtime]
              else urlDowntimes)
       [] (downtimes um)"

section \<open>HTTP boundary\<close>

text \<open>
  The body of an add request after \<^verbatim>\<open>json.Decode\<close>: either the decoder's error or the
  request struct, whose \<^verbatim>\<open>Interval\<close> is a Go \<^verbatim>\<open>int\<close> (64 bits). The handler answers with
  a status code.
\<close>

record AddRequest =
  URL :: string
  Interval :: "64 word"

definition HandleAddMonitor ::
  "string \<Rightarrow> string + AddRequest \<Rightarrow> UptimeMonitor \<Rightarrow> int \<times> UptimeMonitor" where
  "HandleAddMonitor method body um =
     (if method \<noteq> ''POST'' then (405, um)
      else case body of
             Inl err \<Rightarrow> (400, um)
           | Inr req \<Rightarrow>
               (let interval = AddRequest.Interval req * Second in
                case AddMonitor (AddRequest.URL req) interval um of
                  (Some err, um') \<Rightarrow> (400, um')
                | (None, um') \<Rightarrow> (201, um')))"

section \<open>Histories of the engine\<close>

text \<open>
  The critical sections of the engine, as events: the two registry operations, the
  append of \<open>checkURL\<close>, \<open>handleFailure\<close>, \<open>handleSuccess\<close>, and a whole \<open>checkURL\<close> that
  nothing interleaves with. A history is a list of events applied from left to right.
  A \<open>RemoveMonitor\<close> that panics leaves the state as it is.
\<close>

datatype event =
    EvAdd string Duration
  | EvRemove string
  | EvAppend LogEntry
  | EvFailure LogEntry
  | EvSuccess string Time
  | EvCheck string probe int Time Time

fun step :: "(Duration \<Rightarrow> string) \<Rightarrow> event \<Rightarrow> UptimeMonitor \<Rightarrow> UptimeMonitor" where
  "step String (EvAdd url interval) um = snd (AddMonitor url interval um)"
| "step String (EvRemove url) um =
     (case RemoveMonitor url um of Inl p \<Rightarrow> um | Inr r \<Rightarrow> snd r)"
| "step String (EvAppend entry) um = um\<lparr>logs := logs um @ [entry]\<rparr>"
| "step String (EvFailure entry) um = handleFailure entry um"
| "step String (EvSuccess url now) um = handleSuccess String now url um"
| "step String (EvCheck url result responseTime ts now) um =
     checkURL String url result responseTime ts now um"

fun run :: "(Duration \<Rightarrow> string) \<Rightarrow> event list \<Rightarrow> UptimeMonitor \<Rightarrow> UptimeMonitor" where
  "run String [] um = um"
| "run String (e # es) um = run String es (step String e um)"

section \<open>Notions of the specification\<close>

text \<open>
  The specification speaks of the most recent downtime record of a target: the one
  created last, that is, the one at the largest index among the records of that URL.
  \<open>most_recent ds url i\<close> says that index \<open>i\<close> holds it, \<open>no_record ds url\<close> that the
  target has none. Both are written from the words of the specification, not from the
  loop of \<open>getLastDowntime\<close>.
\<close>

definition no_record :: "DowntimeEntry list \<Rightarrow> string \<Rightarrow> bool" where
  "no_record ds url = (\<forall>d \<in> set ds. DowntimeEntry.URL d \<noteq> url)"

definition most_recent :: "DowntimeEntry list \<Rightarrow> string \<Rightarrow> nat \<Rightarrow> bool" where
  "most_recent ds url i =
     (i < length ds \<and> DowntimeEntry.URL (ds ! i) = url \<and>
      (\<forall>d \<in> set (drop (Suc i) ds). DowntimeEntry.URL d \<noteq> url))"

text \<open>
  Two invariants of the reachable states. \<open>single_open\<close>: a downtime record that is
  followed by a later record of the same URL is closed. \<open>registry_ok\<close>: the registry
  and the stop channels have the same keys, every stop channel in the map has been made
  and is not closed, and no channel belongs to two targets.
\<close>

definition single_open :: "DowntimeEntry list \<Rightarrow> bool" where
  "single_open ds =
     (\<forall>i j. i < j \<and> j < length ds \<and> DowntimeEntry.URL (ds ! i) = DowntimeEntry.URL (ds ! j)
        \<longrightarrow> \<not> IsZero (EndTime (ds ! i)))"

definition registry_ok :: "UptimeMonitor \<Rightarrow> bool" where
  "registry_ok um =
     (dom (monitors um) = dom (stopChannels um) \<and>
      (\<forall>url c. stopChannels um url = Some c \<longrightarrow>
         c < length (chan_closed um) \<and> \<not> chan_closed um ! c) \<and>
      (\<forall>u v c. stopChannels um u = Some c \<and> stopChannels um v = Some c \<longrightarrow> u = v))"

section \<open>The backward scan finds the most recent record\<close>

lemma loop_None:
  "getLastDowntime_loop ds url n = None \<Longrightarrow> i < n \<Longrightarrow> DowntimeEntry.URL (ds ! i) \<noteq> url"
proof (induction n)
  case 0
  then show ?case by simp
next
  case (Suc n)
  then show ?case by (cases "i = n") (auto split: if_splits simp: less_Suc_eq)
qed

lemma loop_Some:
  "getLastDowntime_loop ds url n = Some k \<Longrightarrow>
     k < n \<and> DowntimeEntry.URL (ds ! k) = url \<and>
     (\<forall>i. k < i \<and> i < n \<longrightarrow> DowntimeEntry.URL (ds ! i) \<noteq> url)"
proof (induction n)
  case 0
  then show ?case by simp
next
  case (Suc n)
  show ?case
  proof (cases "DowntimeEntry.URL (ds ! n) = url")
    case True
    with Suc.prems show ?thesis by auto
  next
    case False
    with Suc.prems have "getLastDowntime_loop ds url n = Some k" by simp
    from Suc.IH[OF this] False show ?thesis by (auto simp: less_Suc_eq)
  qed
qed

lemma later_records:
  "(\<forall>d \<in> set (drop (Suc i) ds). DowntimeEntry.URL d \<noteq> url) \<longleftrightarrow>
   (\<forall>j. i < j \<and> j < length ds \<longrightarrow> DowntimeEntry.URL (ds ! j) \<noteq> url)"
proof
  assume a: "\<forall>d \<in> set (drop (Suc i) ds). DowntimeEntry.URL d \<noteq> url"
  show "\<forall>j. i < j \<and> j < length ds \<longrightarrow> DowntimeEntry.URL (ds ! j) \<noteq> url"
  proof (intro allI impI)
    fix j assume j: "i < j \<and> j < length ds"
    then have "ds ! j = drop (Suc i) ds ! (j - Suc i)" by simp
    moreover from j have "j - Suc i < length (drop (Suc i) ds)" by auto
    ultimately have "ds ! j \<in> set (drop (Suc i) ds)" by (metis nth_mem)
    with a show "DowntimeEntry.URL (ds ! j) \<noteq> url" by blast
  qed
next
  assume a: "\<forall>j. i < j \<and> j < length ds \<longrightarrow> DowntimeEntry.URL (ds ! j) \<noteq> url"
  show "\<forall>d \<in> set (drop (Suc i) ds). DowntimeEntry.URL d \<noteq> url"
  proof
    fix d assume "d \<in> set (drop (Suc i) ds)"
    then obtain k where k: "k < length (drop (Suc i) ds)" "d = drop (Suc i) ds ! k"
      by (auto simp: in_set_conv_nth)
    then have "d = ds ! (Suc i + k)" "Suc i + k < length ds" by auto
    with a show "DowntimeEntry.URL d \<noteq> url" by auto
  qed
qed

lemma most_recent_unique:
  "most_recent ds url i \<Longrightarrow> most_recent ds url j \<Longrightarrow> i = j"
  unfolding most_recent_def later_records
  by (metis linorder_neqE_nat)

lemma getLastDowntime_None:
  "getLastDowntime um url = None \<longleftrightarrow> no_record (downtimes um) url"
proof
  assume "getLastDowntime um url = None"
  then show "no_record (downtimes um) url"
    unfolding getLastDowntime_def no_record_def
    by (auto simp: in_set_conv_nth dest: loop_None)
next
  assume n: "no_record (downtimes um) url"
  show "getLastDowntime um url = None"
  proof (cases "getLastDowntime um url")
    case None
    then show ?thesis .
  next
    case (Some k)
    then have "k < length (downtimes um) \<and> DowntimeEntry.URL (downtimes um ! k) = url"
      unfolding getLastDowntime_def by (auto dest: loop_Some)
    with n show ?thesis unfolding no_record_def by (metis nth_mem)
  qed
qed

lemma getLastDowntime_Some:
  "getLastDowntime um url = Some i \<longleftrightarrow> most_recent (downtimes um) url i"
proof
  assume "getLastDowntime um url = Some i"
  then show "most_recent (downtimes um) url i"
    unfolding getLastDowntime_def most_recent_def later_records
    by (auto dest: loop_Some)
next
  assume m: "most_recent (downtimes um) url i"
  show "getLastDowntime um url = Some i"
  proof (cases "getLastDowntime um url")
    case None
    then have "no_record (downtimes um) url" by (simp add: getLastDowntime_None)
    with m show ?thesis unfolding no_record_def most_recent_def by (metis nth_mem)
  next
    case (Some k)
    then have "most_recent (downtimes um) url k"
      unfolding getLastDowntime_def most_recent_def later_records
      by (auto dest: loop_Some)
    with m Some show ?thesis by (simp add: most_recent_unique)
  qed
qed

section \<open>Effect of the outcome processor on each field\<close>

lemma logs_handleFailure: "logs (handleFailure entry um) = logs um @ [entry]"
  by (simp add: handleFailure_def Let_def split: option.splits)

lemma logs_handleSuccess: "logs (handleSuccess String now url um) = logs um"
  by (simp add: handleSuccess_def Let_def split: option.splits)

lemma downtimes_handleFailure_cases:
  "downtimes (handleFailure entry um) =
     (case getLastDowntime um (LogEntry.URL entry) of
        None \<Rightarrow> downtimes um @
           [\<lparr>DowntimeEntry.URL = LogEntry.URL entry, StartTime = Timestamp entry,
             EndTime = 0, Duration = '''',
             DowntimeEntry.StatusCode = LogEntry.StatusCode entry, ErrorDetail = Error entry\<rparr>]
      | Some i \<Rightarrow>
          if IsZero (EndTime (downtimes um ! i)) then downtimes um
          else downtimes um @
           [\<lparr>DowntimeEntry.URL = LogEntry.URL entry, StartTime = Timestamp entry,
             EndTime = 0, Duration = '''',
             DowntimeEntry.StatusCode = LogEntry.StatusCode entry, ErrorDetail = Error entry\<rparr>])"
  by (simp add: handleFailure_def getLastDowntime_def Let_def split: option.splits)

lemma registry_handleFailure:
  "monitors (handleFailure entry um) = monitors um \<and>
   stopChannels (handleFailure entry um) = stopChannels um \<and>
   chan_closed (handleFailure entry um) = chan_closed um \<and>
   goroutines (handleFailure entry um) = goroutines um"
  by (simp add: handleFailure_def Let_def split: option.splits)

lemma registry_handleSuccess:
  "monitors (handleSuccess String now url um) = monitors um \<and>
   stopChannels (handleSuccess String now url um) = stopChannels um \<and>
   chan_closed (handleSuccess String now url um) = chan_closed um \<and>
   goroutines (handleSuccess String now url um) = goroutines um"
  by (simp add: handleSuccess_def Let_def split: option.splits)

lemma registry_checkURL:
  "monitors (checkURL String url result responseTime ts now um) = monitors um \<and>
   stopChannels (checkURL String url result responseTime ts now um) = stopChannels um \<and>
   chan_closed (checkURL String url result responseTime ts now um) = chan_closed um \<and>
   goroutines (checkURL String url result responseTime ts now um) = goroutines um"
  by (cases result) (simp_all add: checkURL_def Let_def registry_handleFailure registry_handleSuccess)

lemma downtimes_AddMonitor: "downtimes (snd (AddMonitor url interval um)) = downtimes um"
  by (simp add: AddMonitor_def Let_def split: option.splits)

lemma downtimes_RemoveMonitor:
  "RemoveMonitor url um = Inr r \<Longrightarrow> downtimes (snd r) = downtimes um"
  by (auto simp: RemoveMonitor_def split: option.splits sum.splits)

section \<open>Queries\<close>

lemma foldl_append_if:
  "foldl (\<lambda>acc x. if P x then acc @ [x] else acc) acc0 xs = acc0 @ filter P xs"
  by (induction xs arbitrary: acc0) auto

lemma GetLogs_filter:
  "GetLogs um url = filter (\<lambda>log. LogEntry.URL log = url) (logs um)"
  unfolding GetLogs_def by (simp add: foldl_append_if)

lemma GetDowntimes_filter:
  "GetDowntimes um url =
     filter (\<lambda>downtime. DowntimeEntry.URL downtime = url) (downtimes um)"
  unfolding GetDowntimes_def by (simp add: foldl_append_if)

text \<open>
  Claim C8. For every URL, \<open>GetLogs\<close> returns exactly the log entries whose URL field
  equals it, in append order, and \<open>GetDowntimes\<close> returns exactly the downtime records
  whose URL field equals it, in creation order; the records are returned as stored, so an
  open record still carries its zero end timestamp. Either result may be empty. Both
  functions only read the state: they return a list and no state.
\<close>

theorem C8_queries_filter_in_order:
  "GetLogs um url = filter (\<lambda>log. LogEntry.URL log = url) (logs um) \<and>
   GetDowntimes um url = filter (\<lambda>downtime. DowntimeEntry.URL downtime = url) (downtimes um)"
  by (simp add: GetLogs_filter GetDowntimes_filter)

section \<open>Probe outcomes and the log\<close>



text \<open>
  Claim C1. The claim is that every processed probe outcome appends exactly one log
  entry, so that two completed 500 responses followed by a completed 200 response leave
  three entries with success flags false, false, true. In the code a completed response
  is appended by \<open>checkURL\<close> itself and, when it is not a success, a second time by
  \<open>handleFailure\<close>: the same history leaves five entries.
\<close>

theorem C1_status_failure_logged_twice:
  "map Success (GetLogs
     (checkURL String url (Response 200) r3 t3 n3
       (checkURL String url (Response 500) r2 t2 n2
         (checkURL String url (Response 500) r1 t1 n1
           (snd (AddMonitor url Second NewUptimeMonitor))))) url)
   = [False, False, False, False, True]"
  by (simp add: GetLogs_filter checkURL_def logs_handleFailure logs_handleSuccess
       AddMonitor_def NewUptimeMonitor_def Let_def)

section \<open>Downtime records\<close>






lemma handleFailure_while_down:
  assumes "most_recent (downtimes um) (LogEntry.URL entry) i"
    and "IsZero (EndTime (downtimes um ! i))"
  shows "downtimes (handleFailure entry um) = downtimes um"
proof -
  from assms(1) have "getLastDowntime um (LogEntry.URL entry) = Some i"
    by (simp add: getLastDowntime_Some)
  with assms(2) show ?thesis by (simp add: downtimes_handleFailure_cases)
qed

lemma handleFailure_while_up:
  assumes "no_record (downtimes um) (LogEntry.URL entry) \<or>
     (most_recent (downtimes um) (LogEntry.URL entry) i \<and>
      \<not> IsZero (EndTime (downtimes um ! i)))"
  shows "downtimes (handleFailure entry um) = downtimes um @
     [\<lparr>DowntimeEntry.URL = LogEntry.URL entry, StartTime = Timestamp entry, EndTime = 0,
       Duration = '''', DowntimeEntry.StatusCode = LogEntry.StatusCode entry,
       ErrorDetail = Error entry\<rparr>]"
  using assms
proof
  assume "no_record (downtimes um) (LogEntry.URL entry)"
  then have "getLastDowntime um (LogEntry.URL entry) = None"
    by (simp add: getLastDowntime_None)
  then show ?thesis by (simp add: downtimes_handleFailure_cases)
next
  assume a: "most_recent (downtimes um) (LogEntry.URL entry) i \<and>
      \<not> IsZero (EndTime (downtimes um ! i))"
  then have "getLastDowntime um (LogEntry.URL entry) = Some i"
    by (simp add: getLastDowntime_Some)
  with a show ?thesis by (simp add: downtimes_handleFailure_cases)
qed

text \<open>
  Claim C4. A failure for a target whose most recent downtime record is still open
  leaves the downtime list unchanged. A failure for a target with no downtime record, or
  whose most recent one is closed, appends exactly one record: open, and seeded with the
  URL, timestamp, status code and error text of the outcome. In both cases the outcome is
  appended to the log.
\<close>

theorem C4_handleFailure_opens_at_most_one:
  "(most_recent (downtimes um) (LogEntry.URL entry) i \<and> IsZero (EndTime (downtimes um ! i)) \<longrightarrow>
      downtimes (handleFailure entry um) = downtimes um) \<and>
   (no_record (downtimes um) (LogEntry.URL entry) \<or>
      (most_recent (downtimes um) (LogEntry.URL entry) i \<and>
       \<not> IsZero (EndTime (downtimes um ! i))) \<longrightarrow>
      downtimes (handleFailure entry um) = downtimes um @
        [\<lparr>DowntimeEntry.URL = LogEntry.URL entry, StartTime = Timestamp entry, EndTime = 0,
          Duration = '''', DowntimeEntry.StatusCode = LogEntry.StatusCode entry,
          ErrorDetail = Error entry\<rparr>] \<and>
      IsZero (EndTime (last (downtimes (handleFailure entry um))))) \<and>
   logs (handleFailure entry um) = logs um @ [entry]"
  using handleFailure_while_down[of um entry i] handleFailure_while_up[of um entry i]
  by (auto simp: logs_handleFailure IsZero_def)

theorem C4_handleFailure_opens_at_most_one_witness:
  "downtimes (handleFailure
      \<lparr>Timestamp = 20, LogEntry.URL = ''http://a.test'', LogEntry.StatusCode = 503,
       ResponseTime = 4, Success = False, Error = ''''\<rparr>
      (NewUptimeMonitor\<lparr>downtimes :=
         [\<lparr>DowntimeEntry.URL = ''http://a.test'', StartTime = 10, EndTime = 0,
           Duration = '''', DowntimeEntry.StatusCode = 500, ErrorDetail = ''''\<rparr>]\<rparr>)) =
     [\<lparr>DowntimeEntry.URL = ''http://a.test'', StartTime = 10, EndTime = 0,
       Duration = '''', DowntimeEntry.StatusCode = 500, ErrorDetail = ''''\<rparr>] \<and>
   downtimes (handleFailure
      \<lparr>Timestamp = 20, LogEntry.URL = ''http://a.test'', LogEntry.StatusCode = 503,
       ResponseTime = 4, Success = False, Error = ''''\<rparr> NewUptimeMonitor) =
     [\<lparr>DowntimeEntry.URL = ''http://a.test'', StartTime = 20, EndTime = 0,
       Duration = '''', DowntimeEntry.StatusCode = 503, ErrorDetail = ''''\<rparr>]"
proof -
  let ?e = "\<lparr>Timestamp = 20, LogEntry.URL = ''http://a.test'', LogEntry.StatusCode = 503,
       ResponseTime = 4, Success = False, Error = ''''\<rparr>"
  let ?d = "\<lparr>DowntimeEntry.URL = ''http://a.test'', StartTime = 10, EndTime = 0,
           Duration = '''', DowntimeEntry.StatusCode = 500, ErrorDetail = ''''\<rparr>"
  let ?um = "NewUptimeMonitor\<lparr>downtimes := [?d]\<rparr>"
  have h1: "most_recent (downtimes ?um) (LogEntry.URL ?e) 0 \<and> IsZero (EndTime (downtimes ?um ! 0))"
    by (simp add: most_recent_def IsZero_def)
  have h2: "no_record (downtimes NewUptimeMonitor) (LogEntry.URL ?e)"
    by (simp add: no_record_def NewUptimeMonitor_def)
  have n: "downtimes NewUptimeMonitor = []" by (simp add: NewUptimeMonitor_def)
  from h1 h2 n
    C4_handleFailure_opens_at_most_one[of ?um ?e 0]
    C4_handleFailure_opens_at_most_one[of NewUptimeMonitor ?e 0]
  show ?thesis by simp
qed

section \<open>At most one open downtime per target\<close>

lemma single_open_Nil: "single_open []"
  by (simp add: single_open_def)

lemma single_open_tail: "single_open (d # ds) \<Longrightarrow> single_open ds"
  unfolding single_open_def
proof (intro allI impI)
  fix i j
  assume a: "\<forall>i j. i < j \<and> j < length (d # ds) \<and>
      DowntimeEntry.URL ((d # ds) ! i) = DowntimeEntry.URL ((d # ds) ! j) \<longrightarrow>
      \<not> IsZero (EndTime ((d # ds) ! i))"
    and b: "i < j \<and> j < length ds \<and> DowntimeEntry.URL (ds ! i) = DowntimeEntry.URL (ds ! j)"
  from b have "Suc i < Suc j \<and> Suc j < length (d # ds) \<and>
      DowntimeEntry.URL ((d # ds) ! Suc i) = DowntimeEntry.URL ((d # ds) ! Suc j)" by simp
  with a have "\<not> IsZero (EndTime ((d # ds) ! Suc i))" by blast
  then show "\<not> IsZero (EndTime (ds ! i))" by simp
qed

lemma single_open_head:
  assumes "single_open (d # ds)" and "IsZero (EndTime d)" and "e \<in> set ds"
  shows "DowntimeEntry.URL e \<noteq> DowntimeEntry.URL d"
proof
  assume eq: "DowntimeEntry.URL e = DowntimeEntry.URL d"
  from assms(3) obtain k where k: "k < length ds" "ds ! k = e"
    by (auto simp: in_set_conv_nth)
  then have "0 < Suc k \<and> Suc k < length (d # ds) \<and>
      DowntimeEntry.URL ((d # ds) ! 0) = DowntimeEntry.URL ((d # ds) ! Suc k)"
    using eq by simp
  with assms(1) have "\<not> IsZero (EndTime ((d # ds) ! 0))"
    unfolding single_open_def by blast
  with assms(2) show False by simp
qed

lemma single_open_count:
  "single_open ds \<Longrightarrow>
     length (filter (\<lambda>d. DowntimeEntry.URL d = url \<and> IsZero (EndTime d)) ds) \<le> 1"
proof (induction ds)
  case Nil
  then show ?case by simp
next
  case (Cons d ds)
  from Cons.prems have tl: "single_open ds" by (rule single_open_tail)
  show ?case
  proof (cases "DowntimeEntry.URL d = url \<and> IsZero (EndTime d)")
    case True
    then have "\<forall>e \<in> set ds. DowntimeEntry.URL e \<noteq> url"
      using single_open_head[OF Cons.prems] by auto
    then have "filter (\<lambda>d. DowntimeEntry.URL d = url \<and> IsZero (EndTime d)) ds = []"
      by (simp add: filter_empty_conv)
    with True show ?thesis by simp
  next
    case False
    with Cons.IH[OF tl] show ?thesis by auto
  qed
qed

lemma single_open_append:
  assumes so: "single_open ds"
    and cl: "\<forall>i. most_recent ds (DowntimeEntry.URL d) i \<longrightarrow> \<not> IsZero (EndTime (ds ! i))"
  shows "single_open (ds @ [d])"
  unfolding single_open_def
proof (intro allI impI)
  fix i j
  assume a: "i < j \<and> j < length (ds @ [d]) \<and>
     DowntimeEntry.URL ((ds @ [d]) ! i) = DowntimeEntry.URL ((ds @ [d]) ! j)"
  show "\<not> IsZero (EndTime ((ds @ [d]) ! i))"
  proof (cases "j < length ds")
    case True
    with a have "i < j \<and> j < length ds \<and> DowntimeEntry.URL (ds ! i) = DowntimeEntry.URL (ds ! j)"
      by (auto simp: nth_append)
    with so have "\<not> IsZero (EndTime (ds ! i))" unfolding single_open_def by blast
    with a True show ?thesis by (simp add: nth_append)
  next
    case False
    with a have j: "j = length ds" by simp
    with a have i: "i < length ds" "DowntimeEntry.URL (ds ! i) = DowntimeEntry.URL d"
      by (auto simp: nth_append)
    show ?thesis
    proof (cases "most_recent ds (DowntimeEntry.URL d) i")
      case True
      with cl i show ?thesis by (simp add: nth_append)
    next
      case False
      with i obtain k where k: "i < k" "k < length ds"
         "DowntimeEntry.URL (ds ! k) = DowntimeEntry.URL d"
        unfolding most_recent_def later_records by blast
      with i so have "\<not> IsZero (EndTime (ds ! i))" unfolding single_open_def by metis
      with i show ?thesis by (simp add: nth_append)
    qed
  qed
qed

lemma single_open_close:
  assumes so: "single_open ds" and mr: "most_recent ds url k"
    and url: "DowntimeEntry.URL d' = url"
  shows "single_open (ds[k := d'])"
  unfolding single_open_def
proof (intro allI impI)
  fix i j
  assume a: "i < j \<and> j < length (ds[k := d']) \<and>
     DowntimeEntry.URL (ds[k := d'] ! i) = DowntimeEntry.URL (ds[k := d'] ! j)"
  from mr have k: "k < length ds" "DowntimeEntry.URL (ds ! k) = url"
    and later: "\<forall>j. k < j \<and> j < length ds \<longrightarrow> DowntimeEntry.URL (ds ! j) \<noteq> url"
    unfolding most_recent_def later_records by auto
  have same: "\<And>n. n < length ds \<Longrightarrow> DowntimeEntry.URL (ds[k := d'] ! n) = DowntimeEntry.URL (ds ! n)"
    using k url by (auto simp: nth_list_update)
  from a have ij: "i < j" "j < length ds" "i < length ds" by auto
  with a same have eq: "DowntimeEntry.URL (ds ! i) = DowntimeEntry.URL (ds ! j)" by simp
  show "\<not> IsZero (EndTime (ds[k := d'] ! i))"
  proof (cases "i = k")
    case True
    with eq k have "DowntimeEntry.URL (ds ! j) = url" by simp
    with later ij True show ?thesis by blast
  next
    case False
    from so ij eq have "\<not> IsZero (EndTime (ds ! i))" unfolding single_open_def by blast
    with False ij show ?thesis by (simp add: nth_list_update)
  qed
qed

lemma single_open_handleFailure:
  assumes "single_open (downtimes um)"
  shows "single_open (downtimes (handleFailure entry um))"
proof (cases "getLastDowntime um (LogEntry.URL entry)")
  case None
  then have "\<forall>i. \<not> most_recent (downtimes um) (LogEntry.URL entry) i"
    by (metis getLastDowntime_Some option.distinct(1))
  with assms None show ?thesis
    by (simp add: downtimes_handleFailure_cases single_open_append)
next
  case (Some k)
  show ?thesis
  proof (cases "IsZero (EndTime (downtimes um ! k))")
    case True
    with Some assms show ?thesis by (simp add: downtimes_handleFailure_cases)
  next
    case False
    have "\<forall>i. most_recent (downtimes um) (LogEntry.URL entry) i \<longrightarrow>
        \<not> IsZero (EndTime (downtimes um ! i))"
      using Some False by (metis getLastDowntime_Some option.inject)
    with assms Some False show ?thesis
      by (simp add: downtimes_handleFailure_cases single_open_append)
  qed
qed

lemma single_open_handleSuccess:
  assumes "single_open (downtimes um)"
  shows "single_open (downtimes (handleSuccess String now url um))"
proof (cases "getLastDowntime um url")
  case None
  with assms show ?thesis by (simp add: handleSuccess_def)
next
  case (Some k)
  then have mr: "most_recent (downtimes um) url k" by (simp add: getLastDowntime_Some)
  then have "DowntimeEntry.URL (downtimes um ! k) = url" by (simp add: most_recent_def)
  then show ?thesis
    using Some assms single_open_close[OF assms mr]
    by (simp add: handleSuccess_def Let_def)
qed

lemma single_open_checkURL:
  assumes "single_open (downtimes um)"
  shows "single_open (downtimes (checkURL String url result responseTime ts now um))"
proof -
  have a: "\<And>e. single_open (downtimes (um\<lparr>logs := logs um @ [e]\<rparr>))" using assms by simp
  show ?thesis
    by (cases result)
       (simp_all add: checkURL_def Let_def assms a single_open_handleFailure single_open_handleSuccess)
qed

lemma single_open_step:
  "single_open (downtimes um) \<Longrightarrow> single_open (downtimes (step String e um))"
  by (cases e)
     (auto simp: downtimes_AddMonitor downtimes_RemoveMonitor single_open_handleFailure
        single_open_handleSuccess single_open_checkURL split: sum.splits)

lemma single_open_run:
  "single_open (downtimes um) \<Longrightarrow> single_open (downtimes (run String es um))"
  by (induction es arbitrary: um) (simp_all add: single_open_step)

text \<open>
  Claim C2. After any history of the engine, started from the empty engine (and so after
  any sequence of \<open>handleFailure\<close> and \<open>handleSuccess\<close> calls in any order), every target
  has at most one downtime record with a zero end timestamp.
\<close>

theorem C2_at_most_one_open_downtime:
  "length (filter (\<lambda>d. DowntimeEntry.URL d = url \<and> IsZero (EndTime d))
     (downtimes (run String es NewUptimeMonitor))) \<le> 1"
proof -
  have "single_open (downtimes NewUptimeMonitor)"
    by (simp add: NewUptimeMonitor_def single_open_Nil)
  then have "single_open (downtimes (run String es NewUptimeMonitor))"
    by (rule single_open_run)
  then show ?thesis by (rule single_open_count)
qed

theorem C2_at_most_one_open_downtime_witness:
  "length (filter (\<lambda>d. DowntimeEntry.URL d = ''http://a.test'' \<and> IsZero (EndTime d))
     (downtimes (run (\<lambda>d. ''1m0s'')
        [EvCheck ''http://a.test'' (Response 500) 3 10 11,
         EvCheck ''http://a.test'' (TransportError ''timeout'') 3 20 21,
         EvCheck ''http://a.test'' (Response 200) 3 30 31,
         EvCheck ''http://a.test'' (Response 404) 3 40 41] NewUptimeMonitor))) \<le> 1"
  by (rule C2_at_most_one_open_downtime)

section \<open>Registry\<close>

text \<open>
  Claim C6. \<open>AddMonitor\<close> returns an error exactly when the URL is already a key of the
  registry, and then the whole state is unchanged. Otherwise it installs an entry for the
  URL whose interval is 30 seconds when the given interval is zero, and the given
  interval otherwise.
\<close>

theorem C6_AddMonitor:
  "(fst (AddMonitor url interval um) \<noteq> None \<longleftrightarrow> url \<in> dom (monitors um)) \<and>
   (url \<in> dom (monitors um) \<longrightarrow> snd (AddMonitor url interval um) = um) \<and>
   (url \<notin> dom (monitors um) \<longrightarrow>
      monitors (snd (AddMonitor url interval um)) url =
        Some \<lparr>Monitor.URL = url,
              Interval = (if interval = 0 then 30000000000 else interval)\<rparr>)"
  by (auto simp: AddMonitor_def Second_def Let_def split: option.splits)

theorem C6_AddMonitor_witness:
  "fst (AddMonitor ''http://a.test'' 0 NewUptimeMonitor) = None \<and>
   monitors (snd (AddMonitor ''http://a.test'' 0 NewUptimeMonitor)) ''http://a.test'' =
     Some \<lparr>Monitor.URL = ''http://a.test'', Interval = 30000000000\<rparr> \<and>
   fst (AddMonitor ''http://a.test'' 5000000000
          (snd (AddMonitor ''http://a.test'' 0 NewUptimeMonitor))) \<noteq> None \<and>
   snd (AddMonitor ''http://a.test'' 5000000000
          (snd (AddMonitor ''http://a.test'' 0 NewUptimeMonitor))) =
     snd (AddMonitor ''http://a.test'' 0 NewUptimeMonitor)"
proof -
  let ?um = "snd (AddMonitor ''http://a.test'' 0 NewUptimeMonitor)"
  have h1: "''http://a.test'' \<notin> dom (monitors NewUptimeMonitor)"
    by (simp add: NewUptimeMonitor_def)
  have h2: "''http://a.test'' \<in> dom (monitors ?um)"
    by (simp add: AddMonitor_def NewUptimeMonitor_def Let_def)
  from h1 h2 C6_AddMonitor[of "''http://a.test''" 0 NewUptimeMonitor]
    C6_AddMonitor[of "''http://a.test''" 5000000000 ?um]
  show ?thesis by simp
qed

lemma registry_ok_cong:
  "monitors um' = monitors um \<Longrightarrow> stopChannels um' = stopChannels um \<Longrightarrow>
   chan_closed um' = chan_closed um \<Longrightarrow> registry_ok um \<Longrightarrow> registry_ok um'"
  by (simp add: registry_ok_def)

lemma registry_okI:
  assumes "dom (monitors um) = dom (stopChannels um)"
    and "\<And>u c. stopChannels um u = Some c \<Longrightarrow> c < length (chan_closed um)"
    and "\<And>u c. stopChannels um u = Some c \<Longrightarrow> \<not> chan_closed um ! c"
    and "\<And>u v c. stopChannels um u = Some c \<Longrightarrow> stopChannels um v = Some c \<Longrightarrow> u = v"
  shows "registry_ok um"
  unfolding registry_ok_def using assms by blast

lemma registry_ok_dom: "registry_ok um \<Longrightarrow> dom (monitors um) = dom (stopChannels um)"
  unfolding registry_ok_def by blast

lemma registry_ok_bound:
  "registry_ok um \<Longrightarrow> stopChannels um u = Some c \<Longrightarrow> c < length (chan_closed um)"
  unfolding registry_ok_def by blast

lemma registry_ok_open:
  "registry_ok um \<Longrightarrow> stopChannels um u = Some c \<Longrightarrow> \<not> chan_closed um ! c"
  unfolding registry_ok_def by blast

lemma registry_ok_inj:
  "registry_ok um \<Longrightarrow> stopChannels um u = Some c \<Longrightarrow> stopChannels um v = Some c \<Longrightarrow> u = v"
  unfolding registry_ok_def by blast

lemma registry_ok_New: "registry_ok NewUptimeMonitor"
  by (rule registry_okI) (simp_all add: NewUptimeMonitor_def)

lemma AddMonitor_fresh:
  "monitors um url = None \<Longrightarrow>
   snd (AddMonitor url interval um) =
     um\<lparr>monitors := (monitors um)(url \<mapsto>
            \<lparr>Monitor.URL = url, Interval = (if interval = 0 then 30 * Second else interval)\<rparr>),
        stopChannels := (stopChannels um)(url \<mapsto> length (chan_closed um)),
        chan_closed := chan_closed um @ [False],
        goroutines := goroutines um @
            [(url, if interval = 0 then 30 * Second else interval, length (chan_closed um))]\<rparr>"
  by (simp add: AddMonitor_def Let_def)

lemma AddMonitor_duplicate:
  "monitors um url = Some m \<Longrightarrow> snd (AddMonitor url interval um) = um"
  by (simp add: AddMonitor_def Let_def)

lemma registry_ok_AddMonitor:
  assumes ok: "registry_ok um"
  shows "registry_ok (snd (AddMonitor url interval um))"
proof (cases "monitors um url")
  case (Some m)
  with ok show ?thesis by (simp add: AddMonitor_duplicate)
next
  case None
  let ?um' = "snd (AddMonitor url interval um)"
  have m: "dom (monitors ?um') = insert url (dom (monitors um))"
    by (simp add: AddMonitor_fresh[OF None])
  have s: "stopChannels ?um' = (stopChannels um)(url \<mapsto> length (chan_closed um))"
    by (simp add: AddMonitor_fresh[OF None])
  have c: "chan_closed ?um' = chan_closed um @ [False]"
    by (simp add: AddMonitor_fresh[OF None])
  show ?thesis
  proof (rule registry_okI)
    show "dom (monitors ?um') = dom (stopChannels ?um')"
      by (simp add: m s registry_ok_dom[OF ok])
  next
    fix u k assume "stopChannels ?um' u = Some k"
    then have "k = length (chan_closed um) \<or> stopChannels um u = Some k"
      by (simp add: s split: if_splits)
    then have "k \<le> length (chan_closed um)"
      using registry_ok_bound[OF ok] by (metis less_or_eq_imp_le)
    then show "k < length (chan_closed ?um')" by (simp add: c)
  next
    fix u k assume "stopChannels ?um' u = Some k"
    then have "k = length (chan_closed um) \<or> stopChannels um u = Some k"
      by (simp add: s split: if_splits)
    then show "\<not> chan_closed ?um' ! k"
    proof
      assume "k = length (chan_closed um)"
      then show ?thesis by (simp add: c)
    next
      assume a: "stopChannels um u = Some k"
      from registry_ok_bound[OF ok a] registry_ok_open[OF ok a]
      show ?thesis by (simp add: c nth_append)
    qed
  next
    fix u v k
    assume "stopChannels ?um' u = Some k" and "stopChannels ?um' v = Some k"
    then have u: "(u = url \<and> k = length (chan_closed um)) \<or> (u \<noteq> url \<and> stopChannels um u = Some k)"
      and v: "(v = url \<and> k = length (chan_closed um)) \<or> (v \<noteq> url \<and> stopChannels um v = Some k)"
      by (simp_all add: s split: if_splits)
    have ne: "\<And>w. stopChannels um w = Some k \<Longrightarrow> k \<noteq> length (chan_closed um)"
      using registry_ok_bound[OF ok] by (metis less_irrefl)
    from u v ne registry_ok_inj[OF ok] show "u = v" by metis
  qed
qed

lemma RemoveMonitor_registered:
  assumes "registry_ok um" and "stopChannels um url = Some c"
  shows "RemoveMonitor url um =
     Inr (None, um\<lparr>chan_closed := (chan_closed um)[c := True],
                     stopChannels := (stopChannels um)(url := None),
                     monitors := (monitors um)(url := None)\<rparr>)"
proof -
  from assms have "c < length (chan_closed um)" "\<not> chan_closed um ! c"
    by (rule registry_ok_bound, rule registry_ok_open)
  with assms(2) show ?thesis by (simp add: RemoveMonitor_def close_chan_def)
qed

lemma RemoveMonitor_unregistered:
  "stopChannels um url = None \<Longrightarrow>
   RemoveMonitor url um = Inr (Some (Errorf (''URL '' @ url @ '' is not being monitored'')), um)"
  by (simp add: RemoveMonitor_def)

lemma registry_ok_removed:
  assumes ok: "registry_ok um" and c: "stopChannels um url = Some c"
  shows "registry_ok (um\<lparr>chan_closed := (chan_closed um)[c := True],
                     stopChannels := (stopChannels um)(url := None),
                     monitors := (monitors um)(url := None)\<rparr>)"
    (is "registry_ok ?um'")
proof (rule registry_okI)
  show "dom (monitors ?um') = dom (stopChannels ?um')"
    by (simp add: registry_ok_dom[OF ok])
next
  fix u k
  assume "stopChannels ?um' u = Some k"
  then have "stopChannels um u = Some k" by (simp split: if_splits)
  from registry_ok_bound[OF ok this]
  show "k < length (chan_closed ?um')" by simp
next
  fix u k
  assume "stopChannels ?um' u = Some k"
  then have u: "u \<noteq> url" "stopChannels um u = Some k" by (simp_all split: if_splits)
  with registry_ok_inj[OF ok c] have "k \<noteq> c" by blast
  with registry_ok_open[OF ok u(2)]
  show "\<not> chan_closed ?um' ! k" by simp
next
  fix u v k
  assume "stopChannels ?um' u = Some k" and "stopChannels ?um' v = Some k"
  then have "stopChannels um u = Some k" "stopChannels um v = Some k"
    by (simp_all split: if_splits)
  then show "u = v" by (rule registry_ok_inj[OF ok])
qed

lemma registry_ok_step:
  assumes "registry_ok um"
  shows "registry_ok (step String e um)"
proof (cases e)
  case (EvAdd url interval)
  with assms show ?thesis by (simp add: registry_ok_AddMonitor)
next
  case (EvRemove url)
  show ?thesis
  proof (cases "stopChannels um url")
    case None
    with EvRemove assms show ?thesis by (simp add: RemoveMonitor_unregistered)
  next
    case (Some c)
    with EvRemove assms show ?thesis
      by (simp add: RemoveMonitor_registered registry_ok_removed)
  qed
next
  case (EvAppend entry)
  with assms show ?thesis by (simp add: registry_ok_cong[OF _ _ _ assms])
next
  case (EvFailure entry)
  with assms show ?thesis
    by (simp add: registry_ok_cong[OF _ _ _ assms] registry_handleFailure)
next
  case (EvSuccess url now)
  with assms show ?thesis
    by (simp add: registry_ok_cong[OF _ _ _ assms] registry_handleSuccess)
next
  case (EvCheck url result responseTime ts now)
  with assms show ?thesis
    by (simp add: registry_ok_cong[OF _ _ _ assms] registry_checkURL)
qed

lemma registry_ok_run:
  "registry_ok um \<Longrightarrow> registry_ok (run String es um)"
  by (induction es arbitrary: um) (simp_all add: registry_ok_step)

lemma registry_ok_reachable: "registry_ok (run String es NewUptimeMonitor)"
  by (rule registry_ok_run[OF registry_ok_New])

text \<open>
  Claim C10. After any history of the engine (and so after any sequence of \<open>AddMonitor\<close>
  and \<open>RemoveMonitor\<close> calls), the registry and the stop-channel map have the same key
  set, so the membership test that \<open>RemoveMonitor\<close> makes on the stop channels agrees with
  membership in the registry.
\<close>

theorem C10_registry_and_stop_channels_agree:
  "dom (monitors (run String es NewUptimeMonitor)) =
     dom (stopChannels (run String es NewUptimeMonitor)) \<and>
   ((stopChannels (run String es NewUptimeMonitor) url = None) =
     (monitors (run String es NewUptimeMonitor) url = None))"
proof -
  have "registry_ok (run String es NewUptimeMonitor)" by (rule registry_ok_reachable)
  then have d: "dom (monitors (run String es NewUptimeMonitor)) =
     dom (stopChannels (run String es NewUptimeMonitor))"
    by (rule registry_ok_dom)
  then show ?thesis by (metis domIff)
qed

theorem C10_registry_and_stop_channels_agree_witness:
  "dom (monitors (run (\<lambda>d. ''1m0s'')
      [EvAdd ''http://a.test'' 0, EvAdd ''http://b.test'' Second, EvRemove ''http://a.test'']
      NewUptimeMonitor)) =
   dom (stopChannels (run (\<lambda>d. ''1m0s'')
      [EvAdd ''http://a.test'' 0, EvAdd ''http://b.test'' Second, EvRemove ''http://a.test'']
      NewUptimeMonitor))"
  using C10_registry_and_stop_channels_agree[of "\<lambda>d. ''1m0s''"
      "[EvAdd ''http://a.test'' 0, EvAdd ''http://b.test'' Second, EvRemove ''http://a.test'']" "[]"]
  by (rule conjunct1)

text \<open>
  Claim C7. In every reachable state, \<open>RemoveMonitor\<close> returns an error exactly when the
  URL is not registered, and then the state is unchanged. Otherwise it returns no error,
  removes the registry entry and the stop channel of the URL, and leaves the log and the
  downtime records as they are, so a downtime record that is open stays open.
\<close>

theorem C7_RemoveMonitor:
  assumes "um = run String es NewUptimeMonitor"
  shows "(url \<notin> dom (monitors um) \<longrightarrow>
            RemoveMonitor url um =
              Inr (Some (Errorf (''URL '' @ url @ '' is not being monitored'')), um)) \<and>
         (url \<in> dom (monitors um) \<longrightarrow>
            (\<exists>um'. RemoveMonitor url um = Inr (None, um') \<and>
                   monitors um' = (monitors um)(url := None) \<and>
                   stopChannels um' = (stopChannels um)(url := None) \<and>
                   logs um' = logs um \<and> downtimes um' = downtimes um))"
proof -
  from assms have ok: "registry_ok um" by (simp add: registry_ok_reachable)
  then have d: "dom (monitors um) = dom (stopChannels um)" by (rule registry_ok_dom)
  show ?thesis
  proof (cases "stopChannels um url")
    case None
    with d have "url \<notin> dom (monitors um)" by (simp add: domIff)
    with None show ?thesis by (simp add: RemoveMonitor_unregistered)
  next
    case (Some c)
    with d have "url \<in> dom (monitors um)" by (metis domI)
    with RemoveMonitor_registered[OF ok Some] show ?thesis by simp
  qed
qed

theorem C7_RemoveMonitor_witness:
  "(\<exists>um'. RemoveMonitor ''http://a.test''
            (run (\<lambda>d. ''1m0s'') [EvAdd ''http://a.test'' Second] NewUptimeMonitor) = Inr (None, um') \<and>
          monitors um' ''http://a.test'' = None \<and> stopChannels um' ''http://a.test'' = None) \<and>
   RemoveMonitor ''http://b.test''
     (run (\<lambda>d. ''1m0s'') [EvAdd ''http://a.test'' Second] NewUptimeMonitor) =
     Inr (Some (Errorf ''URL http://b.test is not being monitored''),
          run (\<lambda>d. ''1m0s'') [EvAdd ''http://a.test'' Second] NewUptimeMonitor)"
proof -
  let ?um = "run (\<lambda>d. ''1m0s'') [EvAdd ''http://a.test'' Second] NewUptimeMonitor"
  have h1: "''http://a.test'' \<in> dom (monitors ?um)"
    by (simp add: AddMonitor_def NewUptimeMonitor_def Let_def)
  have h2: "''http://b.test'' \<notin> dom (monitors ?um)"
    by (simp add: AddMonitor_def NewUptimeMonitor_def Let_def)
  from h1 C7_RemoveMonitor[OF refl, where url = "''http://a.test''" and String = "\<lambda>d. ''1m0s''"
      and es = "[EvAdd ''http://a.test'' Second]"]
  have a: "\<exists>um'. RemoveMonitor ''http://a.test'' ?um = Inr (None, um') \<and>
          monitors um' ''http://a.test'' = None \<and> stopChannels um' ''http://a.test'' = None"
    by auto
  from h2 C7_RemoveMonitor[OF refl, where url = "''http://b.test''" and String = "\<lambda>d. ''1m0s''"
      and es = "[EvAdd ''http://a.test'' Second]"]
  have b: "RemoveMonitor ''http://b.test'' ?um =
     Inr (Some (Errorf ''URL http://b.test is not being monitored''), ?um)"
    by simp
  from a b show ?thesis by blast
qed

section \<open>The add request at the HTTP boundary\<close>

text \<open>
  Claim C9. The claim is that a negative interval never reaches the engine, that no
  registered target has a non-positive interval and that registering a target is never
  fatal. The handler checks only the method and the decoding of the body: the request
  with interval \<open>-1\<close> is answered with status 201, the target is registered with an interval
  of minus one second, a poller is started with it, and the poller panics in
  \<^verbatim>\<open>time.NewTicker\<close> before its first round.
\<close>

theorem C9_negative_interval_reaches_poller:
  "fst (HandleAddMonitor ''POST'' (Inr \<lparr>AddRequest.URL = url, Interval = - 1\<rparr>) NewUptimeMonitor) = 201 \<and>
   monitors (snd (HandleAddMonitor ''POST'' (Inr \<lparr>AddRequest.URL = url, Interval = - 1\<rparr>)
       NewUptimeMonitor)) url = Some \<lparr>Monitor.URL = url, Interval = - 1000000000\<rparr> \<and>
   goroutines (snd (HandleAddMonitor ''POST'' (Inr \<lparr>AddRequest.URL = url, Interval = - 1\<rparr>)
       NewUptimeMonitor)) = [(url, - 1000000000, 0)] \<and>
   sint (- 1000000000 :: Duration) = - 1000000000 \<and>
   monitorURL String url (- 1000000000) ws um =
     Inl (Panic ''non-positive interval for NewTicker'')"
  by (simp add: HandleAddMonitor_def AddMonitor_def NewUptimeMonitor_def Second_def Let_def
       monitorURL_def NewTicker_def)

end
